theory Spec2Isabelle
  imports Complex_Main "HOL-Library.AList"
begin

section \<open>JavaScript values\<close>

text \<open>
  A JavaScript \<^verbatim>\<open>number\<close> is modelled as a \<^typ>\<open>real\<close>: the arithmetic of the source is
  read as exact arithmetic, and rounding, infinities and NaN of IEEE doubles are left out.
  An optional field \<^verbatim>\<open>f?: number\<close> is a \<^typ>\<open>real option\<close>, \<^term>\<open>None\<close> standing for
  \<^verbatim>\<open>undefined\<close>.
\<close>

text \<open>Truthiness of an optional number: \<^verbatim>\<open>undefined\<close> and \<^verbatim>\<open>0\<close> are falsy.\<close>

definition truthy :: "real option \<Rightarrow> bool" where
  "truthy v = (case v of None \<Rightarrow> False | Some x \<Rightarrow> x \<noteq> 0)"

text \<open>The expression \<^verbatim>\<open>v || d\<close> on an optional number.\<close>

definition or_default :: "real option \<Rightarrow> real \<Rightarrow> real" where
  "or_default v d = (case v of None \<Rightarrow> d | Some x \<Rightarrow> if x = 0 then d else x)"

text \<open>\<^verbatim>\<open>String.prototype.includes\<close>: the pattern occurs as a contiguous substring.\<close>

fun starts_with :: "string \<Rightarrow> string \<Rightarrow> bool" where
  "starts_with text [] = True"
| "starts_with [] (p # ps) = False"
| "starts_with (c # cs) (p # ps) = (c = p \<and> starts_with cs ps)"

fun str_includes :: "string \<Rightarrow> string \<Rightarrow> bool" where
  "str_includes [] pat = (pat = [])"
| "str_includes (c # cs) pat = (starts_with (c # cs) pat \<or> str_includes cs pat)"


text \<open>
  A template literal that interpolates numbers. The digits a number prints as are decided by
  the IEEE double behind it, which a real of the model does not determine. So a string that
  the source builds is kept as the sequence of the parts of its template literal: a piece of
  text, a number under \<^verbatim>\<open>toFixed(d)\<close>, or a number under the default conversion to a string.
  A string literal is a single piece of text.
\<close>

datatype TemplatePart = Text string | ToFixed real nat | ToString real


section \<open>Core types (types.ts)\<close>

record ResourceMetrics =
  energy :: "real option"
  emissions :: "real option"
  memory :: "real option"
  networkCalls :: "real option"
  ioOperations :: "real option"
  computeComplexity :: "real option"

datatype ViolationType =
  carbon_budget_exceeded | inefficient_algorithm | high_impact_no_annotation | missing_sdg_context

datatype Severity = warning | error

text \<open>
  The \<^verbatim>\<open>message\<close> of a violation is a string that the analyzer builds from a template
  literal; it is kept as the parts of that literal.
\<close>

record Violation =
  vtype :: ViolationType
  severity :: Severity
  message :: "TemplatePart list"
  suggestion :: "string option"

text \<open>
  Of an \<^verbatim>\<open>SDGAnnotation\<close> the analysis reads the carbon budget only; the goal is kept as
  the string value of the enumeration, impact as the pair of its two words.
\<close>

record SDGAnnotation =
  goal :: string
  carbonBudget :: "real option"
  impact :: "(string \<times> string) option"
  description :: "string option"
  tags :: "string list option"


section \<open>Syntax trees\<close>

text \<open>
  The analyzer walks a ts-morph syntax tree. Of a node it asks whether it is one of the four
  iteration statements or a call expression, and of a call expression the source text of its
  callee (\<^verbatim>\<open>getExpression().getText()\<close>), which is carried by the constructor.
\<close>

datatype SyntaxKind =
  ForStatement | WhileStatement | ForInStatement | ForOfStatement
  | CallExpression string | OtherKind

datatype Node = Node SyntaxKind "Node list"

text \<open>\<^verbatim>\<open>forEachDescendant\<close> visits every descendant, parents before children, in source order.\<close>

fun descendants :: "Node \<Rightarrow> Node list" where
  "descendants (Node k cs) = concat (map (\<lambda>c. c # descendants c) cs)"

fun forEachDescendant :: "Node \<Rightarrow> (Node \<Rightarrow> 's \<Rightarrow> 's) \<Rightarrow> 's \<Rightarrow> 's" where
  "forEachDescendant node cb s = fold cb (descendants node) s"

fun isLoopKind :: "SyntaxKind \<Rightarrow> bool" where
  "isLoopKind ForStatement = True"
| "isLoopKind WhileStatement = True"
| "isLoopKind ForInStatement = True"
| "isLoopKind ForOfStatement = True"
| "isLoopKind k = False"

text \<open>
  The test \<^verbatim>\<open>Node.isForStatement(d) || Node.isWhileStatement(d) || Node.isForInStatement(d) ||
  Node.isForOfStatement(d)\<close> of \<^verbatim>\<open>analyzeLoops\<close>.
\<close>

fun isLoop :: "Node \<Rightarrow> bool" where
  "isLoop (Node k cs) = isLoopKind k"

text \<open>The callee text of a call expression; \<^term>\<open>None\<close> for every other node.\<close>

fun callee_text :: "Node \<Rightarrow> string option" where
  "callee_text (Node (CallExpression t) cs) = Some t"
| "callee_text (Node k cs) = None"


section \<open>Static estimation (ResourceAnalyzer)\<close>

definition isNetworkCall :: "Node \<Rightarrow> bool" where
  "isNetworkCall d = (case callee_text d of None \<Rightarrow> False
     | Some t \<Rightarrow> str_includes t ''fetch'' \<or> str_includes t ''axios'' \<or>
         str_includes t ''http.request'' \<or> str_includes t ''$.ajax'')"

definition isIOCall :: "Node \<Rightarrow> bool" where
  "isIOCall d = (case callee_text d of None \<Rightarrow> False
     | Some t \<Rightarrow> str_includes t ''readFile'' \<or> str_includes t ''writeFile'' \<or>
         str_includes t ''fs.'' \<or> str_includes t ''localStorage'' \<or> str_includes t ''sessionStorage'')"

definition isAICall :: "Node \<Rightarrow> bool" where
  "isAICall d = (case callee_text d of None \<Rightarrow> False
     | Some t \<Rightarrow> str_includes t ''tensorflow'' \<or> str_includes t ''torch'' \<or>
         str_includes t ''openai'' \<or> str_includes t ''huggingface'' \<or>
         str_includes t ''predict'' \<or> str_includes t ''inference'')"

definition countNetworkCalls :: "Node \<Rightarrow> ResourceMetrics \<Rightarrow> ResourceMetrics" where
  "countNetworkCalls node metrics =
     forEachDescendant node
       (\<lambda>d m. if isNetworkCall d
              then m\<lparr>networkCalls := Some (or_default (networkCalls m) 0 + 1)\<rparr> else m)
       metrics"

text \<open>
  The callback of \<^verbatim>\<open>analyzeLoops\<close> updates the two local counters \<^verbatim>\<open>loopDepth\<close> and
  \<^verbatim>\<open>maxDepth\<close>; the state of the walk is that pair.
\<close>

definition loop_callback :: "Node \<Rightarrow> nat \<times> nat \<Rightarrow> nat \<times> nat" where
  "loop_callback d = (\<lambda>(loopDepth, maxDepth).
     if isLoop d then (loopDepth + 1, max maxDepth (loopDepth + 1)) else (loopDepth, maxDepth))"

definition analyzeLoops :: "Node \<Rightarrow> ResourceMetrics \<Rightarrow> ResourceMetrics" where
  "analyzeLoops node metrics =
     (let (loopDepth, maxDepth) = forEachDescendant node loop_callback (0, 0)
      in metrics\<lparr>computeComplexity := Some (10 ^ maxDepth)\<rparr>)"

definition countIOOperations :: "Node \<Rightarrow> ResourceMetrics \<Rightarrow> ResourceMetrics" where
  "countIOOperations node metrics =
     forEachDescendant node
       (\<lambda>d m. if isIOCall d
              then m\<lparr>ioOperations := Some (or_default (ioOperations m) 0 + 1)\<rparr> else m)
       metrics"

definition ai_callback :: "Node \<Rightarrow> ResourceMetrics \<Rightarrow> ResourceMetrics" where
  "ai_callback d m =
     (if isAICall d
      then (let m1 = m\<lparr>energy := Some (or_default (energy m) 0 + 50)\<rparr>
            in m1\<lparr>computeComplexity := Some (or_default (computeComplexity m1) 1 * 1000)\<rparr>)
      else m)"

definition detectAIModelUsage :: "Node \<Rightarrow> ResourceMetrics \<Rightarrow> ResourceMetrics" where
  "detectAIModelUsage node metrics = forEachDescendant node ai_callback metrics"

text \<open>\<^verbatim>\<open>Math.log10\<close> is the logarithm to base 10.\<close>

definition estimateEnergyUsage :: "ResourceMetrics \<Rightarrow> ResourceMetrics" where
  "estimateEnergyUsage metrics =
     (let baseEnergy = 0.01;
          baseEnergy = baseEnergy + or_default (networkCalls metrics) 0 * 0.001;
          baseEnergy = baseEnergy + or_default (ioOperations metrics) 0 * 0.0005;
          baseEnergy = baseEnergy + log 10 (or_default (computeComplexity metrics) 1) * 0.01;
          metrics = metrics\<lparr>energy := Some (or_default (energy metrics) 0 + baseEnergy)\<rparr>
      in metrics\<lparr>emissions := Some (or_default (energy metrics) 0 * 500)\<rparr>)"

definition initial_metrics :: ResourceMetrics where
  "initial_metrics = \<lparr>energy = Some 0, emissions = Some 0, memory = Some 0,
     networkCalls = Some 0, ioOperations = Some 0, computeComplexity = Some 1\<rparr>"

definition analyzeFunction :: "Node \<Rightarrow> ResourceMetrics" where
  "analyzeFunction node =
     (let metrics = initial_metrics;
          metrics = countNetworkCalls node metrics;
          metrics = analyzeLoops node metrics;
          metrics = countIOOperations node metrics;
          metrics = detectAIModelUsage node metrics
      in estimateEnergyUsage metrics)"


section \<open>Violations and score\<close>

text \<open>The guard \<^verbatim>\<open>v && v > bound\<close> on an optional number.\<close>

definition truthy_above :: "real option \<Rightarrow> real \<Rightarrow> bool" where
  "truthy_above v bound = (case v of None \<Rightarrow> False | Some x \<Rightarrow> x \<noteq> 0 \<and> x > bound)"

text \<open>
  The loop body of \<^verbatim>\<open>detectViolations\<close>. Its guard
  \<^verbatim>\<open>annotation.carbonBudget && metrics.energy && metrics.energy > annotation.carbonBudget\<close>
  wants both numbers truthy before it compares them.
\<close>

definition check_budget :: "ResourceMetrics \<Rightarrow> SDGAnnotation \<Rightarrow> Violation list \<Rightarrow> Violation list" where
  "check_budget metrics annotation violations =
     (case carbonBudget annotation of None \<Rightarrow> violations
      | Some b \<Rightarrow>
         (case energy metrics of None \<Rightarrow> violations
          | Some e \<Rightarrow>
             if b \<noteq> 0 \<and> e \<noteq> 0 \<and> e > b
             then violations @
               [\<lparr>vtype = carbon_budget_exceeded, severity = error,
                 message = [Text ''Energy usage ('', ToFixed e 3,
                            Text ''kWh) exceeds carbon budget ('', ToString b, Text ''kWh)''],
                 suggestion = Some ''Consider optimizing algorithms or reducing network calls''\<rparr>]
             else violations))"

definition detectViolations :: "ResourceMetrics \<Rightarrow> SDGAnnotation list \<Rightarrow> Violation list" where
  "detectViolations metrics annotations =
     (let violations = [];
          violations = fold (check_budget metrics) annotations violations;
          violations =
            (if truthy_above (computeComplexity metrics) 1000
             then violations @
               [\<lparr>vtype = inefficient_algorithm, severity = warning,
                 message = [Text ''High computational complexity detected''],
                 suggestion = Some ''Consider using more efficient algorithms or caching''\<rparr>]
             else violations);
          violations =
            (if truthy_above (energy metrics) 10 \<and> length annotations = 0
             then violations @
               [\<lparr>vtype = high_impact_no_annotation, severity = warning,
                 message = [Text ''High energy consumption function lacks SDG annotations''],
                 suggestion = Some ''Add @sdg annotation to document sustainability impact''\<rparr>]
             else violations)
      in violations)"

text \<open>
  \<^verbatim>\<open>calculateScore\<close> takes its arguments untyped; it reads the severity of each violation, the
  energy of the metrics when it is defined, and the number of annotations.
\<close>

definition calculateScore ::
  "ResourceMetrics \<Rightarrow> Violation list \<Rightarrow> SDGAnnotation list \<Rightarrow> real" where
  "calculateScore metrics violations annotations =
     (let score = 100;
          score = fold (\<lambda>violation score.
                    score - (if severity violation = error then 20 else 10)) violations score;
          score = (case energy metrics of None \<Rightarrow> score
                   | Some e \<Rightarrow> if e < 0.1 then score + 10
                              else if e > 10 then score - 15 else score);
          score = score + real (length annotations) * 5
      in max 0 (min 100 score))"


section \<open>Runtime tracking (ResourceTracker)\<close>

text \<open>
  The caller hands \<^verbatim>\<open>startContext\<close> a context object, and JavaScript passes objects by
  reference. Context objects therefore live in a store, and the tracker and its events hold
  references into it. The fields \<^verbatim>\<open>goal\<close>, \<^verbatim>\<open>carbonBudget\<close> and \<^verbatim>\<open>description\<close> carry the
  prefix \<^verbatim>\<open>ctx_\<close>, since an annotation has fields of the same names.
\<close>

type_synonym ref = nat

record SDGContext =
  ctx_goal :: string
  ctx_carbonBudget :: "real option"
  ctx_description :: "string option"
  startTime :: "real option"
  maxDuration :: "real option"

datatype EventType =
  ev_context_started | ev_context_ended | ev_resource_tracked | ev_carbon_budget_exceeded

text \<open>
  An event holds the context by reference. The metrics of an event are recorded as they are
  when the event is emitted.
\<close>

record TrackingEvent =
  etype :: EventType
  contextId :: string
  ev_context :: "ref option"
  ev_metrics :: "ResourceMetrics option"
  resourceType :: "string option"
  usage :: "ResourceMetrics option"
  totalMetrics :: "ResourceMetrics option"
  duration :: "real option"
  timestamp :: real

text \<open>
  The state: the store of context objects, the two maps of the tracker, and what the tracker
  does to the outside. A \<^verbatim>\<open>Map\<close> keeps its keys in insertion order, and \<^verbatim>\<open>set\<close> on a key
  that is present keeps the key's place: an association list under \<^const>\<open>AList.update\<close>.
  \<^verbatim>\<open>emit\<close> calls every listener with the event, in registration order, and catches what a
  listener throws; \<open>emitted\<close> is the sequence of events the listeners are called with.
  Listeners are taken not to call the tracker themselves. \<open>console\<close> collects the warnings.
  \<^verbatim>\<open>Date.now()\<close> is read from \<open>clock\<close>, one reading after the other.
\<close>

record State =
  heap :: "ref \<Rightarrow> SDGContext"
  activeContexts :: "(string \<times> ref) list"
  metrics :: "(string \<times> ResourceMetrics) list"
  emitted :: "TrackingEvent list"
  console :: "string list"
  clock :: "nat \<Rightarrow> real"
  ticks :: nat

definition Date_now :: "State \<Rightarrow> real \<times> State" where
  "Date_now s = (clock s (ticks s), s\<lparr>ticks := ticks s + 1\<rparr>)"

definition emit :: "TrackingEvent \<Rightarrow> State \<Rightarrow> State" where
  "emit event s = s\<lparr>emitted := emitted s @ [event]\<rparr>"

definition startContext :: "string \<Rightarrow> ref \<Rightarrow> State \<Rightarrow> State" where
  "startContext cid ctx s =
     (let (now, s) = Date_now s;
          s = s\<lparr>heap := (heap s)(ctx := (heap s ctx)\<lparr>startTime := Some now\<rparr>)\<rparr>;
          s = s\<lparr>activeContexts := AList.update cid ctx (activeContexts s)\<rparr>;
          s = s\<lparr>metrics := AList.update cid initial_metrics (metrics s)\<rparr>;
          (now, s) = Date_now s
      in emit \<lparr>etype = ev_context_started, contextId = cid, ev_context = Some ctx,
               ev_metrics = None, resourceType = None, usage = None, totalMetrics = None,
               duration = None, timestamp = now\<rparr> s)"

text \<open>
  The budget check of \<^verbatim>\<open>endContext\<close>,
  \<^verbatim>\<open>context.carbonBudget && metrics.energy && metrics.energy > context.carbonBudget\<close>.
\<close>

definition budget_exceeded :: "SDGContext \<Rightarrow> ResourceMetrics \<Rightarrow> bool" where
  "budget_exceeded c m =
     (case ctx_carbonBudget c of None \<Rightarrow> False
      | Some b \<Rightarrow> (case energy m of None \<Rightarrow> False | Some e \<Rightarrow> b \<noteq> 0 \<and> e \<noteq> 0 \<and> e > b))"

definition endContext :: "string \<Rightarrow> State \<Rightarrow> ResourceMetrics option \<times> State" where
  "endContext cid s =
     (case map_of (activeContexts s) cid of None \<Rightarrow> (None, s)
      | Some ctx \<Rightarrow>
         (case map_of (metrics s) cid of None \<Rightarrow> (None, s)
          | Some m \<Rightarrow>
             (let (now, s) = Date_now s;
                  d = now - or_default (startTime (heap s ctx)) 0;
                  s = (if budget_exceeded (heap s ctx) m
                       then (let (now, s) = Date_now s
                             in emit \<lparr>etype = ev_carbon_budget_exceeded, contextId = cid,
                                   ev_context = Some ctx, ev_metrics = Some m,
                                   resourceType = None, usage = None, totalMetrics = None,
                                   duration = None, timestamp = now\<rparr> s)
                       else s);
                  (now, s) = Date_now s;
                  s = emit \<lparr>etype = ev_context_ended, contextId = cid, ev_context = Some ctx,
                        ev_metrics = Some m, resourceType = None, usage = None,
                        totalMetrics = None, duration = Some d, timestamp = now\<rparr> s;
                  s = s\<lparr>activeContexts := AList.delete cid (activeContexts s)\<rparr>;
                  s = s\<lparr>metrics := AList.delete cid (metrics s)\<rparr>
              in (Some m, s))))"

text \<open>The statement \<^verbatim>\<open>if (v) ...\<close> on an optional number of the usage.\<close>

definition when_truthy :: "real option \<Rightarrow> (real \<Rightarrow> 'a \<Rightarrow> 'a) \<Rightarrow> 'a \<Rightarrow> 'a" where
  "when_truthy v f m = (case v of None \<Rightarrow> m | Some u \<Rightarrow> if u = 0 then m else f u m)"

definition accumulate :: "ResourceMetrics \<Rightarrow> ResourceMetrics \<Rightarrow> ResourceMetrics" where
  "accumulate u m =
     (let m = when_truthy (energy u)
                (\<lambda>x m. m\<lparr>energy := Some (or_default (energy m) 0 + x)\<rparr>) m;
          m = when_truthy (emissions u)
                (\<lambda>x m. m\<lparr>emissions := Some (or_default (emissions m) 0 + x)\<rparr>) m;
          m = when_truthy (memory u)
                (\<lambda>x m. m\<lparr>memory := Some (max (or_default (memory m) 0) x)\<rparr>) m;
          m = when_truthy (networkCalls u)
                (\<lambda>x m. m\<lparr>networkCalls := Some (or_default (networkCalls m) 0 + x)\<rparr>) m;
          m = when_truthy (ioOperations u)
                (\<lambda>x m. m\<lparr>ioOperations := Some (or_default (ioOperations m) 0 + x)\<rparr>) m
      in m)"

definition trackResource :: "string \<Rightarrow> string \<Rightarrow> ResourceMetrics \<Rightarrow> State \<Rightarrow> State" where
  "trackResource cid rtype u s =
     (case map_of (metrics s) cid of
        None \<Rightarrow> s\<lparr>console := console s @ [''No active context found for ID: '' @ cid]\<rparr>
      | Some m \<Rightarrow>
         (let m = accumulate u m;
              s = s\<lparr>metrics := AList.update cid m (metrics s)\<rparr>;
              (now, s) = Date_now s
          in emit \<lparr>etype = ev_resource_tracked, contextId = cid, ev_context = None,
                ev_metrics = None, resourceType = Some rtype, usage = Some u,
                totalMetrics = Some m, duration = None, timestamp = now\<rparr> s))"

definition getActiveContexts :: "State \<Rightarrow> (string \<times> ref) list" where
  "getActiveContexts s = activeContexts s"

definition getCurrentMetrics :: "string \<Rightarrow> State \<Rightarrow> ResourceMetrics option" where
  "getCurrentMetrics cid s = map_of (metrics s) cid"

text \<open>
  The module function \<^verbatim>\<open>trackResource(resourceType, usage)\<close>: it takes a copy of the map of
  active contexts and calls the tracker's \<^verbatim>\<open>trackResource\<close> for each of its keys.
\<close>

definition trackResource_all :: "string \<Rightarrow> ResourceMetrics \<Rightarrow> State \<Rightarrow> State" where
  "trackResource_all rtype u s =
     (let snapshot = getActiveContexts s
      in fold (\<lambda>(cid, ctx) s. trackResource cid rtype u s) snapshot s)"

text \<open>A tracker that has not been used yet, on a given store and clock.\<close>

definition new_tracker :: "(ref \<Rightarrow> SDGContext) \<Rightarrow> (nat \<Rightarrow> real) \<Rightarrow> State" where
  "new_tracker h c =
     \<lparr>heap = h, activeContexts = [], metrics = [], emitted = [], console = [],
      clock = c, ticks = 0\<rparr>"

text \<open>
  Well-formed states. The keys of a \<^verbatim>\<open>Map\<close> are distinct; the two maps of the tracker
  hold the same ids in the same order, since every start writes both and every end deletes
  from both; and the peak memory of an accumulator is never negative, since it starts at
  zero and only grows.
\<close>

definition memory_ok :: "ResourceMetrics \<Rightarrow> bool" where
  "memory_ok m = (0 \<le> or_default (memory m) 0)"

definition wf_state :: "State \<Rightarrow> bool" where
  "wf_state s =
     (distinct (map fst (activeContexts s)) \<and>
      map fst (metrics s) = map fst (activeContexts s) \<and>
      list_all (\<lambda>(cid, m). memory_ok m) (metrics s))"


section \<open>Notions used in the statements\<close>

text \<open>
  The maximum lexical nesting depth of iteration statements below a node, as the
  specification words it: a loop counts one level above the deepest nesting among its
  children. This is not what \<^const>\<open>analyzeLoops\<close> computes.
\<close>

fun nesting_depth :: "Node \<Rightarrow> nat" where
  "nesting_depth (Node k cs) =
     (if isLoopKind k then 1 else 0) + fold max (map nesting_depth cs) 0"

text \<open>The adjustment of the score by the energy, as the specification words it.\<close>

definition adjustment :: "real option \<Rightarrow> real" where
  "adjustment e =
     (case e of None \<Rightarrow> 0 | Some x \<Rightarrow> if x < 0.1 then 10 else if x > 10 then - 15 else 0)"

text \<open>
  The comparison \<^verbatim>\<open>v > bound\<close> on an optional number, false when the number is missing,
  and the pairs of energy and budget for which a budget violation is due, in the order of
  the annotations.
\<close>

definition gt_opt :: "real option \<Rightarrow> real \<Rightarrow> bool" where
  "gt_opt v bound = (case v of None \<Rightarrow> False | Some x \<Rightarrow> bound < x)"

definition exceeded_budgets :: "ResourceMetrics \<Rightarrow> SDGAnnotation list \<Rightarrow> (real \<times> real) list" where
  "exceeded_budgets m anns =
     List.map_filter (\<lambda>a.
        case carbonBudget a of None \<Rightarrow> None
        | Some b \<Rightarrow> (case energy m of None \<Rightarrow> None
                     | Some e \<Rightarrow> if b \<noteq> 0 \<and> e \<noteq> 0 \<and> b < e then Some (e, b) else None)) anns"

text \<open>The equation between emissions and energy, a missing field counting as 0.\<close>

definition emissions_consistent :: "ResourceMetrics \<Rightarrow> bool" where
  "emissions_consistent m = (or_default (emissions m) 0 = or_default (energy m) 0 * 500)"

text \<open>The two events of \<^const>\<open>endContext\<close>.\<close>

definition exceeded_event :: "string \<Rightarrow> ref \<Rightarrow> ResourceMetrics \<Rightarrow> real \<Rightarrow> TrackingEvent" where
  "exceeded_event cid ctx m t =
     \<lparr>etype = ev_carbon_budget_exceeded, contextId = cid, ev_context = Some ctx,
      ev_metrics = Some m, resourceType = None, usage = None, totalMetrics = None,
      duration = None, timestamp = t\<rparr>"

definition ended_event :: "string \<Rightarrow> ref \<Rightarrow> ResourceMetrics \<Rightarrow> real \<Rightarrow> real \<Rightarrow> TrackingEvent" where
  "ended_event cid ctx m d t =
     \<lparr>etype = ev_context_ended, contextId = cid, ev_context = Some ctx,
      ev_metrics = Some m, resourceType = None, usage = None, totalMetrics = None,
      duration = Some d, timestamp = t\<rparr>"

text \<open>
  What the tracker reads when it looks a context up by its id, and an assignment of the
  caller to the object behind a reference.
\<close>

definition lookup_context :: "string \<Rightarrow> State \<Rightarrow> SDGContext option" where
  "lookup_context cid s = map_option (heap s) (map_of (activeContexts s) cid)"

definition caller_write :: "ref \<Rightarrow> SDGContext \<Rightarrow> State \<Rightarrow> State" where
  "caller_write r c s = s\<lparr>heap := (heap s)(r := c)\<rparr>"


section \<open>Example inputs\<close>

text \<open>
  Function declarations whose body is a block: an empty one, one with a single loop, one with
  two loops one after the other, and one with a loop inside a loop.
\<close>

definition empty_body :: Node where
  "empty_body = Node OtherKind [Node OtherKind []]"

definition one_loop :: Node where
  "one_loop = Node OtherKind [Node OtherKind [Node ForStatement [Node OtherKind []]]]"

definition two_loops :: Node where
  "two_loops = Node OtherKind [Node OtherKind
     [Node ForStatement [Node OtherKind []], Node ForStatement [Node OtherKind []]]]"

definition nested_loops :: Node where
  "nested_loops = Node OtherKind [Node OtherKind
     [Node ForStatement [Node OtherKind [Node WhileStatement [Node OtherKind []]]]]]"

text \<open>An annotation of a given budget, and metrics of a given energy.\<close>

definition annotation_with_budget :: "real option \<Rightarrow> SDGAnnotation" where
  "annotation_with_budget b =
     \<lparr>goal = ''Goal13_ClimateAction'', carbonBudget = b, impact = None, description = None,
      tags = None\<rparr>"

definition metrics_with_energy :: "real \<Rightarrow> ResourceMetrics" where
  "metrics_with_energy e = initial_metrics\<lparr>energy := Some e, emissions := Some (e * 500)\<rparr>"

text \<open>The budget error for an energy of 1.5 and a budget of 1.\<close>

definition budget_error_example :: Violation where
  "budget_error_example =
     \<lparr>vtype = carbon_budget_exceeded, severity = error,
      message = [Text ''Energy usage ('', ToFixed 1.5 3,
                 Text ''kWh) exceeds carbon budget ('', ToString 1, Text ''kWh)''],
      suggestion = Some ''Consider optimizing algorithms or reducing network calls''\<rparr>"

text \<open>
  Example states: a store in which every object is a context of a given budget, a clock,
  usages of one or two fields, a tracker in which "c1" was started and then charged an energy, and a
  tracker in which "a" and "b" were started.
\<close>

definition context_with_budget :: "real option \<Rightarrow> SDGContext" where
  "context_with_budget b =
     \<lparr>ctx_goal = ''Goal13_ClimateAction'', ctx_carbonBudget = b, ctx_description = None,
      startTime = None, maxDuration = None\<rparr>"

definition heap0 :: "real option \<Rightarrow> ref \<Rightarrow> SDGContext" where
  "heap0 b r = context_with_budget b"

definition clock0 :: "nat \<Rightarrow> real" where
  "clock0 n = 1000 + real n"

definition no_usage :: ResourceMetrics where
  "no_usage = \<lparr>energy = None, emissions = None, memory = None, networkCalls = None,
     ioOperations = None, computeComplexity = None\<rparr>"

definition usage_energy :: "real \<Rightarrow> ResourceMetrics" where
  "usage_energy x = no_usage\<lparr>energy := Some x\<rparr>"


definition started_c1 :: "real option \<Rightarrow> State" where
  "started_c1 b = startContext ''c1'' 0 (new_tracker (heap0 b) clock0)"

definition tracked_c1 :: "real option \<Rightarrow> real \<Rightarrow> State" where
  "tracked_c1 b x = trackResource ''c1'' ''execution'' (usage_energy x) (started_c1 b)"


definition usage_energy_emissions :: "real \<Rightarrow> real \<Rightarrow> ResourceMetrics" where
  "usage_energy_emissions x y = no_usage\<lparr>energy := Some x, emissions := Some y\<rparr>"


section \<open>Properties of the static estimator\<close>

lemma fold_net:
  "networkCalls m = Some x \<Longrightarrow>
   fold (\<lambda>d m. if isNetworkCall d
              then m\<lparr>networkCalls := Some (or_default (networkCalls m) 0 + 1)\<rparr> else m) ds m
   = m\<lparr>networkCalls := Some (x + real (length (filter isNetworkCall ds)))\<rparr>"
  by (induction ds arbitrary: m x) (auto simp: or_default_def)

lemma fold_io:
  "ioOperations m = Some x \<Longrightarrow>
   fold (\<lambda>d m. if isIOCall d
              then m\<lparr>ioOperations := Some (or_default (ioOperations m) 0 + 1)\<rparr> else m) ds m
   = m\<lparr>ioOperations := Some (x + real (length (filter isIOCall ds)))\<rparr>"
  by (induction ds arbitrary: m x) (auto simp: or_default_def)

lemma fold_loop:
  "fold loop_callback ds (l, l) = (l + length (filter isLoop ds), l + length (filter isLoop ds))"
  by (induction ds arbitrary: l) (auto simp: loop_callback_def)

lemma fold_ai:
  "energy m = Some e \<Longrightarrow> computeComplexity m = Some c \<Longrightarrow> c \<noteq> 0 \<Longrightarrow>
   fold ai_callback ds m
   = m\<lparr>energy := Some (e + 50 * real (length (filter isAICall ds))),
        computeComplexity := Some (c * 1000 ^ length (filter isAICall ds))\<rparr>"
  by (induction ds arbitrary: m e c) (auto simp: ai_callback_def or_default_def Let_def algebra_simps)

lemma net_pass: "countNetworkCalls node initial_metrics =
   initial_metrics\<lparr>networkCalls := Some (real (length (filter isNetworkCall (descendants node))))\<rparr>"
  unfolding countNetworkCalls_def forEachDescendant.simps
  by (subst fold_net[where x=0]) (simp_all add: initial_metrics_def)

lemma loops_pass: "analyzeLoops node m =
   m\<lparr>computeComplexity := Some (10 ^ length (filter isLoop (descendants node)))\<rparr>"
  unfolding analyzeLoops_def forEachDescendant.simps
  by (simp add: fold_loop[of _ 0, simplified])

lemma io_pass: "ioOperations m = Some 0 \<Longrightarrow> countIOOperations node m =
   m\<lparr>ioOperations := Some (real (length (filter isIOCall (descendants node))))\<rparr>"
  unfolding countIOOperations_def forEachDescendant.simps
  by (subst fold_io[where x=0]) simp_all

lemma ai_pass: "energy m = Some 0 \<Longrightarrow> computeComplexity m = Some c \<Longrightarrow> c \<noteq> 0 \<Longrightarrow>
   detectAIModelUsage node m =
   m\<lparr>energy := Some (50 * real (length (filter isAICall (descendants node)))),
        computeComplexity := Some (c * 1000 ^ length (filter isAICall (descendants node)))\<rparr>"
  unfolding detectAIModelUsage_def forEachDescendant.simps
  by (subst fold_ai[where e=0 and c=c]) simp_all

lemma analyzeFunction_eq:
  "analyzeFunction node =
    (let nc = real (length (filter isNetworkCall (descendants node)));
         io = real (length (filter isIOCall (descendants node)));
         k = length (filter isAICall (descendants node));
         L = length (filter isLoop (descendants node));
         cc = 10 ^ L * 1000 ^ k;
         e = 50 * real k + (0.01 + nc * 0.001 + io * 0.0005 + log 10 cc * 0.01)
     in \<lparr>energy = Some e, emissions = Some (e * 500), memory = Some 0,
         networkCalls = Some nc, ioOperations = Some io, computeComplexity = Some cc\<rparr>)"
  unfolding analyzeFunction_def Let_def net_pass loops_pass
  apply (subst io_pass)
   apply (simp add: initial_metrics_def)
  apply (subst ai_pass[where c="10 ^ length (filter isLoop (descendants node))"])
     apply (simp_all add: initial_metrics_def)
  apply (simp add: estimateEnergyUsage_def Let_def or_default_def)
  done

text \<open>
  C5: the final energy of the estimator is 0.01 + networkCalls * 0.001 + ioOperations * 0.0005
  + log10(computeComplexity) * 0.01, plus 50 for every call expression that matches a
  heavy-inference keyword, and the emissions are 500 times that energy; a body with
  computeComplexity 1 and no detected call has energy 0.01.
\<close>

theorem analyzeFunction_energy_formula:
  "\<exists>e nc io cc.
     energy (analyzeFunction node) = Some e \<and>
     networkCalls (analyzeFunction node) = Some nc \<and>
     ioOperations (analyzeFunction node) = Some io \<and>
     computeComplexity (analyzeFunction node) = Some cc \<and>
     e = 0.01 + nc * 0.001 + io * 0.0005 + log 10 cc * 0.01
         + 50 * real (length (filter isAICall (descendants node))) \<and>
     emissions (analyzeFunction node) = Some (e * 500) \<and>
     (cc = 1 \<and> nc = 0 \<and> io = 0 \<and> length (filter isAICall (descendants node)) = 0
        \<longrightarrow> e = 0.01)"
proof -
  let ?k = "length (filter isAICall (descendants node))"
  let ?nc = "real (length (filter isNetworkCall (descendants node)))"
  let ?io = "real (length (filter isIOCall (descendants node)))"
  let ?cc = "(10::real) ^ length (filter isLoop (descendants node)) * 1000 ^ ?k"
  let ?e = "0.01 + ?nc * 0.001 + ?io * 0.0005 + log 10 ?cc * 0.01 + 50 * real ?k"
  have fields: "energy (analyzeFunction node) = Some ?e"
    "networkCalls (analyzeFunction node) = Some ?nc"
    "ioOperations (analyzeFunction node) = Some ?io"
    "computeComplexity (analyzeFunction node) = Some ?cc"
    "emissions (analyzeFunction node) = Some (?e * 500)"
    unfolding analyzeFunction_eq Let_def by simp_all
  have particular: "?cc = 1 \<and> ?nc = 0 \<and> ?io = 0 \<and> ?k = 0 \<longrightarrow> ?e = 0.01"
  proof
    assume h: "?cc = 1 \<and> ?nc = 0 \<and> ?io = 0 \<and> ?k = 0"
    then have "?cc = 1" by (rule conjunct1)
    then have "log 10 ?cc = log 10 1" by (rule arg_cong)
    then have "log 10 ?cc = 0" by (simp only: log_one)
    moreover from h have "?nc = 0" "?io = 0" "real ?k = 0" by simp_all
    ultimately show "?e = 0.01" by (simp only: mult_zero_left add_0_right)
  qed
  from fields particular show ?thesis by blast
qed

lemma descendants_empty_body: "descendants empty_body = [Node OtherKind []]"
  by (simp add: empty_body_def)

theorem analyzeFunction_energy_formula_witness:
  "computeComplexity (analyzeFunction empty_body) = Some 1 \<and>
   networkCalls (analyzeFunction empty_body) = Some 0 \<and>
   ioOperations (analyzeFunction empty_body) = Some 0 \<and>
   length (filter isAICall (descendants empty_body)) = 0 \<and>
   energy (analyzeFunction empty_body) = Some 0.01 \<and>
   emissions (analyzeFunction empty_body) = Some 5"
proof -
  have k: "length (filter isAICall (descendants empty_body)) = 0"
    by (simp add: descendants_empty_body isAICall_def)
  have cc: "computeComplexity (analyzeFunction empty_body) = Some 1"
    and nc: "networkCalls (analyzeFunction empty_body) = Some 0"
    and io: "ioOperations (analyzeFunction empty_body) = Some 0"
    unfolding analyzeFunction_eq Let_def
    by (simp_all add: descendants_empty_body isAICall_def isNetworkCall_def isIOCall_def)
  from analyzeFunction_energy_formula[of empty_body] cc nc io k
  have "energy (analyzeFunction empty_body) = Some 0.01"
    and "emissions (analyzeFunction empty_body) = Some (0.01 * 500)"
    by auto
  with cc nc io k show ?thesis by simp
qed

text \<open>
  What \<^const>\<open>analyzeLoops\<close> computes: the counter \<^verbatim>\<open>loopDepth\<close> is raised at every loop and
  never lowered, so the exponent is the number of loops below the node.
\<close>

lemma analyzeLoops_counts_loops:
  "computeComplexity (analyzeLoops node m) = Some (10 ^ length (filter isLoop (descendants node)))"
  by (simp add: loops_pass)

text \<open>
  C2: computeComplexity is meant to be 10 to the power of the maximum lexical nesting depth
  of loops. On a body with two loops one after the other, of nesting depth 1,
  \<^const>\<open>analyzeLoops\<close> sets it to 100, as it does on a loop nested in a loop; a single loop
  gives 10.
\<close>

theorem analyzeLoops_counts_sequential_loops:
  "computeComplexity (analyzeLoops one_loop initial_metrics) = Some 10 \<and>
   nesting_depth one_loop = 1 \<and>
   computeComplexity (analyzeLoops two_loops initial_metrics) = Some 100 \<and>
   nesting_depth two_loops = 1 \<and>
   computeComplexity (analyzeLoops nested_loops initial_metrics) = Some 100 \<and>
   nesting_depth nested_loops = 2"
  by (simp add: loops_pass one_loop_def two_loops_def nested_loops_def)


section \<open>Properties of the violation detector\<close>

lemma fold_check_budget:
  "fold (check_budget m) anns vs
     = vs @ map (\<lambda>(e, b).
         \<lparr>vtype = carbon_budget_exceeded, severity = error,
          message = [Text ''Energy usage ('', ToFixed e 3,
                     Text ''kWh) exceeds carbon budget ('', ToString b, Text ''kWh)''],
          suggestion = Some ''Consider optimizing algorithms or reducing network calls''\<rparr>)
       (exceeded_budgets m anns)"
proof (induction anns arbitrary: vs)
  case Nil
  then show ?case by (simp add: exceeded_budgets_def map_filter_simps)
next
  case (Cons a anns)
  show ?case
    unfolding fold_simps Cons.IH
    by (simp add: check_budget_def exceeded_budgets_def map_filter_simps split: option.split)
qed

lemma truthy_above_gt: "0 \<le> bound \<Longrightarrow> truthy_above v bound = gt_opt v bound"
  by (auto simp: truthy_above_def gt_opt_def split: option.split)

text \<open>The violations as one list, in their order.\<close>

lemma detectViolations_eq:
  "detectViolations m anns =
     map (\<lambda>(e, b).
         \<lparr>vtype = carbon_budget_exceeded, severity = error,
          message = [Text ''Energy usage ('', ToFixed e 3,
                     Text ''kWh) exceeds carbon budget ('', ToString b, Text ''kWh)''],
          suggestion = Some ''Consider optimizing algorithms or reducing network calls''\<rparr>)
       (exceeded_budgets m anns)
     @ (if gt_opt (computeComplexity m) 1000
        then [\<lparr>vtype = inefficient_algorithm, severity = warning,
               message = [Text ''High computational complexity detected''],
               suggestion = Some ''Consider using more efficient algorithms or caching''\<rparr>]
        else [])
     @ (if gt_opt (energy m) 10 \<and> anns = []
        then [\<lparr>vtype = high_impact_no_annotation, severity = warning,
               message = [Text ''High energy consumption function lacks SDG annotations''],
               suggestion = Some ''Add @sdg annotation to document sustainability impact''\<rparr>]
        else [])"
  unfolding detectViolations_def Let_def fold_check_budget
  by (simp add: truthy_above_gt)

text \<open>The formatting of the messages, for every input.\<close>

lemma set_exceeded_budgets:
  "(e, b) \<in> set (exceeded_budgets m anns) \<longleftrightarrow>
     energy m = Some e \<and> (\<exists>a. a \<in> set anns \<and> carbonBudget a = Some b) \<and>
     b \<noteq> 0 \<and> e \<noteq> 0 \<and> b < e"
proof (induction anns)
  case Nil
  then show ?case by (simp add: exceeded_budgets_def)
next
  case (Cons a anns)
  from Cons.IH show ?case
    unfolding exceeded_budgets_def
    by (auto split: option.splits if_splits)
qed

lemma detectViolations_budget_message:
  assumes "v \<in> set (detectViolations m anns)" and "vtype v = carbon_budget_exceeded"
  shows "\<exists>e b a. energy m = Some e \<and> a \<in> set anns \<and> carbonBudget a = Some b \<and>
           message v = [Text ''Energy usage ('', ToFixed e 3,
                        Text ''kWh) exceeds carbon budget ('', ToString b, Text ''kWh)'']"
proof -
  from assms obtain e b where eb: "(e, b) \<in> set (exceeded_budgets m anns)"
    and msg: "message v = [Text ''Energy usage ('', ToFixed e 3,
                        Text ''kWh) exceeds carbon budget ('', ToString b, Text ''kWh)'']"
    unfolding detectViolations_eq by (auto split: if_splits)
  from eb obtain a where "a \<in> set anns" "carbonBudget a = Some b" "energy m = Some e"
    unfolding set_exceeded_budgets by blast
  with msg show ?thesis by blast
qed

lemma detectViolations_fixed_is_energy:
  assumes "v \<in> set (detectViolations m anns)" and "ToFixed x d \<in> set (message v)"
  shows "energy m = Some x \<and> d = 3"
proof -
  from assms obtain e b where eb: "(e, b) \<in> set (exceeded_budgets m anns)"
    and "ToFixed x d \<in> set [Text ''Energy usage ('', ToFixed e 3,
                        Text ''kWh) exceeds carbon budget ('', ToString b, Text ''kWh)'']"
    unfolding detectViolations_eq by (auto split: if_splits)
  then have "x = e" "d = 3" by simp_all
  with eb show ?thesis unfolding set_exceeded_budgets by blast
qed

text \<open>
  C3, as amended: the violations come in a fixed order. First, for each annotation whose
  carbonBudget is present and not 0, in the order of the annotations, a
  carbon_budget_exceeded error when the energy is not 0 and above the budget, with a message
  that states the energy under \<^verbatim>\<open>toFixed(3)\<close>, that is to 3 decimals, and the budget under the
  default conversion of a number to a string, which fixes no number of decimals; then an
  inefficient_algorithm warning iff computeComplexity is above 1000; then a
  high_impact_no_annotation warning iff the energy is above 10 and there is no annotation.
  So every budget error carries the energy of the metrics under \<^verbatim>\<open>toFixed(3)\<close> and the
  budget of one of the annotations under the default conversion, and in no message is
  anything but the energy of the metrics under \<^verbatim>\<open>toFixed\<close>.
\<close>

theorem detectViolations_order:
  "detectViolations m anns =
     map (\<lambda>(e, b).
         \<lparr>vtype = carbon_budget_exceeded, severity = error,
          message = [Text ''Energy usage ('', ToFixed e 3,
                     Text ''kWh) exceeds carbon budget ('', ToString b, Text ''kWh)''],
          suggestion = Some ''Consider optimizing algorithms or reducing network calls''\<rparr>)
       (exceeded_budgets m anns)
     @ (if gt_opt (computeComplexity m) 1000
        then [\<lparr>vtype = inefficient_algorithm, severity = warning,
               message = [Text ''High computational complexity detected''],
               suggestion = Some ''Consider using more efficient algorithms or caching''\<rparr>]
        else [])
     @ (if gt_opt (energy m) 10 \<and> anns = []
        then [\<lparr>vtype = high_impact_no_annotation, severity = warning,
               message = [Text ''High energy consumption function lacks SDG annotations''],
               suggestion = Some ''Add @sdg annotation to document sustainability impact''\<rparr>]
        else [])
   \<and> (\<forall>v. v \<in> set (detectViolations m anns) \<and> vtype v = carbon_budget_exceeded \<longrightarrow>
         (\<exists>e b a. energy m = Some e \<and> a \<in> set anns \<and> carbonBudget a = Some b \<and>
            message v = [Text ''Energy usage ('', ToFixed e 3,
                         Text ''kWh) exceeds carbon budget ('', ToString b, Text ''kWh)'']))
   \<and> (\<forall>v x d. v \<in> set (detectViolations m anns) \<and> ToFixed x d \<in> set (message v) \<longrightarrow>
         energy m = Some x \<and> d = 3)"
proof (intro conjI allI impI)
  show "detectViolations m anns =
     map (\<lambda>(e, b).
         \<lparr>vtype = carbon_budget_exceeded, severity = error,
          message = [Text ''Energy usage ('', ToFixed e 3,
                     Text ''kWh) exceeds carbon budget ('', ToString b, Text ''kWh)''],
          suggestion = Some ''Consider optimizing algorithms or reducing network calls''\<rparr>)
       (exceeded_budgets m anns)
     @ (if gt_opt (computeComplexity m) 1000
        then [\<lparr>vtype = inefficient_algorithm, severity = warning,
               message = [Text ''High computational complexity detected''],
               suggestion = Some ''Consider using more efficient algorithms or caching''\<rparr>]
        else [])
     @ (if gt_opt (energy m) 10 \<and> anns = []
        then [\<lparr>vtype = high_impact_no_annotation, severity = warning,
               message = [Text ''High energy consumption function lacks SDG annotations''],
               suggestion = Some ''Add @sdg annotation to document sustainability impact''\<rparr>]
        else [])"
    by (rule detectViolations_eq)
next
  fix v
  assume "v \<in> set (detectViolations m anns) \<and> vtype v = carbon_budget_exceeded"
  then show "\<exists>e b a. energy m = Some e \<and> a \<in> set anns \<and> carbonBudget a = Some b \<and>
            message v = [Text ''Energy usage ('', ToFixed e 3,
                         Text ''kWh) exceeds carbon budget ('', ToString b, Text ''kWh)'']"
    using detectViolations_budget_message by blast
next
  fix v x d
  assume h: "v \<in> set (detectViolations m anns) \<and> ToFixed x d \<in> set (message v)"
  then have "energy m = Some x \<and> d = 3"
    using detectViolations_fixed_is_energy by blast
  then show "energy m = Some x" "d = 3" by simp_all
qed

theorem detectViolations_order_witness:
  "budget_error_example
     \<in> set (detectViolations (metrics_with_energy 1.5) [annotation_with_budget (Some 1)])
   \<and> vtype budget_error_example = carbon_budget_exceeded
   \<and> ToFixed 1.5 3 \<in> set (message budget_error_example)
   \<and> ToString 1 \<in> set (message budget_error_example)
   \<and> energy (metrics_with_energy 1.5) = Some 1.5
   \<and> carbonBudget (annotation_with_budget (Some 1)) = Some 1"
proof -
  have d: "detectViolations (metrics_with_energy 1.5) [annotation_with_budget (Some 1)]
      = [budget_error_example]"
    by (simp add: detectViolations_def check_budget_def truthy_above_def Let_def
        annotation_with_budget_def metrics_with_energy_def initial_metrics_def
        budget_error_example_def)
  have v: "budget_error_example
      \<in> set (detectViolations (metrics_with_energy 1.5) [annotation_with_budget (Some 1)])"
    unfolding d by simp
  have t: "vtype budget_error_example = carbon_budget_exceeded"
    and f: "ToFixed 1.5 3 \<in> set (message budget_error_example)"
    and g: "ToString 1 \<in> set (message budget_error_example)"
    by (simp_all add: budget_error_example_def)
  from detectViolations_order[of "metrics_with_energy 1.5" "[annotation_with_budget (Some 1)]"]
    v f
  have e: "energy (metrics_with_energy 1.5) = Some 1.5" by blast
  have b: "carbonBudget (annotation_with_budget (Some 1)) = Some 1"
    by (simp add: annotation_with_budget_def)
  from v t f g e b show ?thesis by (intro conjI)
qed

text \<open>
  C3, as stated, fails twice. An annotation with a carbonBudget of 0 gets no violation though
  the energy 0.01 is above it, since the guard takes the budget 0 for no budget. And in the
  message for energy 1.5 and budget 1 only the energy is under \<^verbatim>\<open>toFixed(3)\<close>; the budget is
  under the default conversion, which prints no decimals for a whole number.
\<close>

theorem detectViolations_counterexample:
  "carbonBudget (annotation_with_budget (Some 0)) = Some 0
   \<and> energy (metrics_with_energy 0.01) = Some 0.01
   \<and> detectViolations (metrics_with_energy 0.01) [annotation_with_budget (Some 0)] = []
   \<and> map message (detectViolations (metrics_with_energy 1.5) [annotation_with_budget (Some 1)])
       = [[Text ''Energy usage ('', ToFixed 1.5 3,
           Text ''kWh) exceeds carbon budget ('', ToString 1, Text ''kWh)'']]"
  by (simp add: detectViolations_def check_budget_def truthy_above_def Let_def
      annotation_with_budget_def metrics_with_energy_def initial_metrics_def)


section \<open>Properties of the score\<close>

lemma fold_penalty:
  "fold (\<lambda>violation score. score - (if severity violation = error then 20 else 10)) vs (s::real)
   = s - 20 * real (length (filter (\<lambda>v. severity v = error) vs))
       - 10 * real (length (filter (\<lambda>v. severity v = warning) vs))"
proof (induction vs arbitrary: s)
  case Nil
  then show ?case by simp
next
  case (Cons v vs)
  show ?case by (cases "severity v") (simp_all add: Cons.IH)
qed

lemma score_raw:
  "calculateScore m vs anns =
     max 0 (min 100 (100 - 20 * real (length (filter (\<lambda>v. severity v = error) vs))
        - 10 * real (length (filter (\<lambda>v. severity v = warning) vs))
        + adjustment (energy m) + 5 * real (length anns)))"
proof -
  have adj: "(case energy m of None \<Rightarrow> s
                   | Some e \<Rightarrow> if e < 0.1 then s + 10
                              else if e > 10 then s - 15 else s) = s + adjustment (energy m)" for s :: real
    by (simp add: adjustment_def split: option.split)
  show ?thesis
    unfolding calculateScore_def Let_def fold_penalty adj
    by (simp add: algebra_simps)
qed

text \<open>
  C4: the score is 100 - 20 * (number of errors) - 10 * (number of warnings)
  + adjustment(energy) + 5 * (number of annotations), clamped into the interval from 0 to
  100, where the adjustment is +10 below 0.1, -15 above 10 and 0 otherwise; so the score
  always lies between 0 and 100.
\<close>

theorem calculateScore_formula:
  "calculateScore m vs anns =
     max 0 (min 100 (100 - 20 * real (length (filter (\<lambda>v. severity v = error) vs))
        - 10 * real (length (filter (\<lambda>v. severity v = warning) vs))
        + adjustment (energy m) + 5 * real (length anns)))
   \<and> 0 \<le> calculateScore m vs anns
   \<and> calculateScore m vs anns \<le> 100"
proof -
  have "0 \<le> calculateScore m vs anns" "calculateScore m vs anns \<le> 100"
    unfolding calculateScore_def Let_def by simp_all
  with score_raw show ?thesis by blast
qed


section \<open>Properties of the runtime tracker\<close>

subsection \<open>The operations, field by field\<close>

lemma startContext_fields:
  "heap (startContext cid ctx s) = (heap s)(ctx := (heap s ctx)\<lparr>startTime := Some (clock s (ticks s))\<rparr>)"
  "activeContexts (startContext cid ctx s) = AList.update cid ctx (activeContexts s)"
  "metrics (startContext cid ctx s) = AList.update cid initial_metrics (metrics s)"
  "emitted (startContext cid ctx s) = emitted s @
     [\<lparr>etype = ev_context_started, contextId = cid, ev_context = Some ctx,
       ev_metrics = None, resourceType = None, usage = None, totalMetrics = None,
       duration = None, timestamp = clock s (ticks s + 1)\<rparr>]"
  "console (startContext cid ctx s) = console s"
  "clock (startContext cid ctx s) = clock s"
  "ticks (startContext cid ctx s) = ticks s + 2"
  by (simp_all add: startContext_def Date_now_def emit_def Let_def)

lemma trackResource_unknown:
  "map_of (metrics s) cid = None \<Longrightarrow>
   trackResource cid rtype u s =
     s\<lparr>console := console s @ [''No active context found for ID: '' @ cid]\<rparr>"
  by (simp add: trackResource_def)

lemma trackResource_known_fields:
  assumes "map_of (metrics s) cid = Some m"
  shows "heap (trackResource cid rtype u s) = heap s"
    "activeContexts (trackResource cid rtype u s) = activeContexts s"
    "metrics (trackResource cid rtype u s) = AList.update cid (accumulate u m) (metrics s)"
    "emitted (trackResource cid rtype u s) = emitted s @
       [\<lparr>etype = ev_resource_tracked, contextId = cid, ev_context = None,
         ev_metrics = None, resourceType = Some rtype, usage = Some u,
         totalMetrics = Some (accumulate u m), duration = None,
         timestamp = clock s (ticks s)\<rparr>]"
    "console (trackResource cid rtype u s) = console s"
    "clock (trackResource cid rtype u s) = clock s"
    "ticks (trackResource cid rtype u s) = ticks s + 1"
  using assms by (simp_all add: trackResource_def Date_now_def emit_def Let_def)

lemma trackResource_frame:
  "heap (trackResource cid rtype u s) = heap s"
  "activeContexts (trackResource cid rtype u s) = activeContexts s"
  "clock (trackResource cid rtype u s) = clock s"
  by (cases "map_of (metrics s) cid"; simp add: trackResource_unknown trackResource_known_fields)+

lemma trackResource_metrics_lookup:
  "map_of (metrics (trackResource c rtype u s)) cid =
     (if c = cid then map_option (accumulate u) (map_of (metrics s) cid)
      else map_of (metrics s) cid)"
  by (cases "map_of (metrics s) c")
     (auto simp: trackResource_unknown trackResource_known_fields update_conv')

lemma endContext_unknown:
  "map_of (activeContexts s) cid = None \<or> map_of (metrics s) cid = None \<Longrightarrow>
   endContext cid s = (None, s)"
  by (auto simp: endContext_def split: option.splits)

lemma endContext_known_fields:
  assumes "map_of (activeContexts s) cid = Some ctx" and "map_of (metrics s) cid = Some m"
  shows "fst (endContext cid s) = Some m"
    "heap (snd (endContext cid s)) = heap s"
    "activeContexts (snd (endContext cid s)) = AList.delete cid (activeContexts s)"
    "metrics (snd (endContext cid s)) = AList.delete cid (metrics s)"
    "emitted (snd (endContext cid s)) = emitted s @
       (if budget_exceeded (heap s ctx) m
        then [exceeded_event cid ctx m (clock s (ticks s + 1)),
              ended_event cid ctx m (clock s (ticks s) - or_default (startTime (heap s ctx)) 0)
                (clock s (ticks s + 2))]
        else [ended_event cid ctx m (clock s (ticks s) - or_default (startTime (heap s ctx)) 0)
                (clock s (ticks s + 1))])"
    "console (snd (endContext cid s)) = console s"
    "clock (snd (endContext cid s)) = clock s"
  using assms
  by (simp_all add: endContext_def Date_now_def emit_def Let_def exceeded_event_def ended_event_def)

lemma when_truthy_if:
  "when_truthy v f m = (if truthy v then f (the v) m else m)"
  by (simp add: when_truthy_def truthy_def split: option.split)

lemma accumulate_energy:
  "or_default (energy (accumulate u m)) 0 = or_default (energy m) 0 + or_default (energy u) 0"
  by (simp add: accumulate_def when_truthy_if Let_def truthy_def or_default_def split: option.split)

lemma accumulate_emissions:
  "or_default (emissions (accumulate u m)) 0 = or_default (emissions m) 0 + or_default (emissions u) 0"
  by (simp add: accumulate_def when_truthy_if Let_def truthy_def or_default_def split: option.split)

lemma accumulate_networkCalls:
  "or_default (networkCalls (accumulate u m)) 0 =
     or_default (networkCalls m) 0 + or_default (networkCalls u) 0"
  by (simp add: accumulate_def when_truthy_if Let_def truthy_def or_default_def split: option.split)

lemma accumulate_ioOperations:
  "or_default (ioOperations (accumulate u m)) 0 =
     or_default (ioOperations m) 0 + or_default (ioOperations u) 0"
  by (simp add: accumulate_def when_truthy_if Let_def truthy_def or_default_def split: option.split)

lemma accumulate_memory:
  "memory_ok m \<Longrightarrow>
   or_default (memory (accumulate u m)) 0 = max (or_default (memory m) 0) (or_default (memory u) 0)"
  by (simp add: accumulate_def when_truthy_if Let_def truthy_def or_default_def memory_ok_def
      split: option.split)

lemma accumulate_memory_ok: "memory_ok m \<Longrightarrow> memory_ok (accumulate u m)"
  by (auto simp: accumulate_def when_truthy_if Let_def truthy_def or_default_def memory_ok_def
      split: option.splits if_splits)

lemma accumulate_computeComplexity: "computeComplexity (accumulate u m) = computeComplexity m"
  by (simp add: accumulate_def when_truthy_if Let_def)

subsection \<open>Well-formed states\<close>

text \<open>Every operation keeps a state well formed.\<close>

lemma wf_new_tracker: "wf_state (new_tracker h c)"
  by (simp add: wf_state_def new_tracker_def)

lemma list_all_update:
  "list_all P al \<Longrightarrow> P (k, v) \<Longrightarrow> list_all P (AList.update k v al)"
  by (induction al) auto

lemma list_all_delete: "list_all P al \<Longrightarrow> list_all P (AList.delete k al)"
  by (simp add: AList.delete_eq list_all_iff)

lemma keys_update:
  "map fst al = map fst bl \<Longrightarrow>
   map fst (AList.update k v al) = map fst (AList.update k w bl)"
proof (induction al arbitrary: bl)
  case Nil
  then show ?case by simp
next
  case (Cons a al)
  then obtain b bl' where bl: "bl = b # bl'" by (cases bl) auto
  with Cons.prems have "fst a = fst b" "map fst al = map fst bl'" by simp_all
  with Cons.IH[of bl'] show ?case by (simp add: bl)
qed

lemma keys_update_same: "map_of al k = Some x \<Longrightarrow> map fst (AList.update k v al) = map fst al"
  by (induction al) (auto split: if_splits)

lemma keys_delete: "map fst (AList.delete k al) = filter (\<lambda>x. x \<noteq> k) (map fst al)"
  by (induction al) (auto simp: AList.delete_eq)

lemma wf_startContext: "wf_state s \<Longrightarrow> wf_state (startContext cid ctx s)"
  by (simp add: wf_state_def startContext_fields distinct_update list_all_update
      memory_ok_def initial_metrics_def or_default_def keys_update)

lemma wf_lookup_memory_ok:
  "wf_state s \<Longrightarrow> map_of (metrics s) cid = Some m \<Longrightarrow> memory_ok m"
  by (auto simp: wf_state_def list_all_iff dest: map_of_SomeD)

lemma wf_trackResource: "wf_state s \<Longrightarrow> wf_state (trackResource cid rtype u s)"
proof (cases "map_of (metrics s) cid")
  case None
  assume "wf_state s"
  with None show ?thesis by (simp add: trackResource_unknown wf_state_def)
next
  case (Some m)
  assume wf: "wf_state s"
  then have "memory_ok (accumulate u m)"
    using Some by (simp add: wf_lookup_memory_ok accumulate_memory_ok)
  with wf Some show ?thesis
    by (simp add: wf_state_def trackResource_known_fields list_all_update keys_update_same)
qed

lemma wf_endContext: "wf_state s \<Longrightarrow> wf_state (snd (endContext cid s))"
proof (cases "map_of (activeContexts s) cid = None \<or> map_of (metrics s) cid = None")
  case True
  assume "wf_state s"
  with True show ?thesis by (simp add: endContext_unknown)
next
  case False
  assume wf: "wf_state s"
  from False obtain ctx m where
    "map_of (activeContexts s) cid = Some ctx" "map_of (metrics s) cid = Some m" by auto
  with wf show ?thesis
    by (simp add: wf_state_def endContext_known_fields distinct_delete list_all_delete keys_delete)
qed

lemma fold_trackResource_wf:
  "wf_state s \<Longrightarrow> wf_state (fold (\<lambda>(cid, ctx) s. trackResource cid rtype u s) ps s)"
  by (induction ps arbitrary: s) (auto simp: wf_trackResource)

lemma wf_trackResource_all: "wf_state s \<Longrightarrow> wf_state (trackResource_all rtype u s)"
  by (simp add: trackResource_all_def Let_def fold_trackResource_wf)

lemma wf_caller_write: "wf_state s \<Longrightarrow> wf_state (caller_write r c s)"
  by (simp add: wf_state_def caller_write_def)

text \<open>In a well-formed state every active context has its accumulator.\<close>

lemma wf_active_has_metrics:
  assumes "wf_state s" and "map_of (activeContexts s) cid = Some ctx"
  shows "\<exists>m. map_of (metrics s) cid = Some m"
proof -
  from assms(2) have "cid \<in> fst ` set (activeContexts s)"
    by (metis map_of_eq_None_iff option.distinct(1))
  with assms(1) have "cid \<in> fst ` set (metrics s)"
    by (metis wf_state_def list.set_map)
  then show ?thesis
    by (metis map_of_eq_None_iff not_Some_eq)
qed

subsection \<open>Tracking on an unknown id\<close>

text \<open>
  C8: for an id that has no accumulator, \<^const>\<open>trackResource\<close> does nothing but log a
  warning: the two maps, the store and the emitted events stay as they are, and a lookup of
  the metrics of that id still finds nothing. No path of the function raises. In particular
  tracking an energy of 1 on the id "unknown" creates no entry for it.
\<close>

theorem trackResource_unknown_noop:
  assumes "getCurrentMetrics cid s = None"
  shows "trackResource cid rtype u s =
           s\<lparr>console := console s @ [''No active context found for ID: '' @ cid]\<rparr>
       \<and> activeContexts (trackResource cid rtype u s) = activeContexts s
       \<and> metrics (trackResource cid rtype u s) = metrics s
       \<and> emitted (trackResource cid rtype u s) = emitted s
       \<and> heap (trackResource cid rtype u s) = heap s
       \<and> getCurrentMetrics cid (trackResource cid rtype u s) = None"
  using assms by (simp add: getCurrentMetrics_def trackResource_unknown)

theorem trackResource_unknown_noop_witness:
  "getCurrentMetrics ''unknown'' (started_c1 None) = None
   \<and> metrics (trackResource ''unknown'' ''x'' (usage_energy 1) (started_c1 None))
       = metrics (started_c1 None)
   \<and> activeContexts (trackResource ''unknown'' ''x'' (usage_energy 1) (started_c1 None))
       = activeContexts (started_c1 None)
   \<and> console (trackResource ''unknown'' ''x'' (usage_energy 1) (started_c1 None))
       = [''No active context found for ID: unknown'']
   \<and> getCurrentMetrics ''unknown''
        (trackResource ''unknown'' ''x'' (usage_energy 1) (started_c1 None)) = None"
proof -
  have h: "getCurrentMetrics ''unknown'' (started_c1 None) = None"
    by (simp add: getCurrentMetrics_def started_c1_def startContext_fields new_tracker_def)
  have c: "console (started_c1 None) = []"
    by (simp add: started_c1_def startContext_fields new_tracker_def)
  from trackResource_unknown_noop[OF h, of "''x''" "usage_energy 1"] h c
  show ?thesis by (simp add: getCurrentMetrics_def)
qed

subsection \<open>Accumulation\<close>

text \<open>The example states, field by field.\<close>

lemma started_c1_fields:
  "activeContexts (started_c1 b) = [(''c1'', 0)]"
  "metrics (started_c1 b) = [(''c1'', initial_metrics)]"
  "heap (started_c1 b) 0 = (context_with_budget b)\<lparr>startTime := Some 1000\<rparr>"
  "emitted (started_c1 b) =
     [\<lparr>etype = ev_context_started, contextId = ''c1'', ev_context = Some 0,
       ev_metrics = None, resourceType = None, usage = None, totalMetrics = None,
       duration = None, timestamp = 1001\<rparr>]"
  "console (started_c1 b) = []"
  "ticks (started_c1 b) = 2"
  "clock (started_c1 b) = clock0"
  by (simp_all add: started_c1_def startContext_fields new_tracker_def heap0_def clock0_def)

lemma accumulate_usage_energy:
  "x \<noteq> 0 \<Longrightarrow> energy m = Some e \<Longrightarrow> accumulate (usage_energy x) m = m\<lparr>energy := Some (e + x)\<rparr>"
  by (simp add: accumulate_def usage_energy_def no_usage_def when_truthy_def or_default_def Let_def)

lemma tracked_c1_fields:
  assumes "x \<noteq> 0"
  shows "activeContexts (tracked_c1 b x) = [(''c1'', 0)]"
  "metrics (tracked_c1 b x) = [(''c1'', initial_metrics\<lparr>energy := Some x\<rparr>)]"
  "heap (tracked_c1 b x) 0 = (context_with_budget b)\<lparr>startTime := Some 1000\<rparr>"
  "map etype (emitted (tracked_c1 b x)) = [ev_context_started, ev_resource_tracked]"
  "ticks (tracked_c1 b x) = 3"
  "clock (tracked_c1 b x) = clock0"
proof -
  have look: "map_of (metrics (started_c1 b)) ''c1'' = Some initial_metrics"
    by (simp add: started_c1_fields)
  have acc: "accumulate (usage_energy x) initial_metrics = initial_metrics\<lparr>energy := Some x\<rparr>"
    using assms by (simp add: accumulate_usage_energy[where e=0] initial_metrics_def)
  show "activeContexts (tracked_c1 b x) = [(''c1'', 0)]"
    "metrics (tracked_c1 b x) = [(''c1'', initial_metrics\<lparr>energy := Some x\<rparr>)]"
    "heap (tracked_c1 b x) 0 = (context_with_budget b)\<lparr>startTime := Some 1000\<rparr>"
    "map etype (emitted (tracked_c1 b x)) = [ev_context_started, ev_resource_tracked]"
    "ticks (tracked_c1 b x) = 3"
    "clock (tracked_c1 b x) = clock0"
    unfolding tracked_c1_def
    by (simp_all add: trackResource_known_fields[OF look] started_c1_fields acc)
qed

text \<open>
  C6: for a started context, \<^const>\<open>trackResource\<close> on its id adds energy, emissions,
  networkCalls and ioOperations of the usage to the accumulator and takes the maximum for
  memory, and \<^const>\<open>endContext\<close> returns the accumulator. In particular, after a start of
  "c1" and usages of energy 0.2 and 0.3, the end of "c1" returns metrics of energy 0.5.
  A field that is missing counts as 0.
\<close>

theorem trackResource_accumulates:
  assumes "wf_state s"
    and "map_of (activeContexts s) cid = Some ctx"
    and "map_of (metrics s) cid = Some m"
  shows "getCurrentMetrics cid (trackResource cid rtype u s) = Some (accumulate u m)
    \<and> fst (endContext cid (trackResource cid rtype u s)) = Some (accumulate u m)
    \<and> or_default (energy (accumulate u m)) 0 = or_default (energy m) 0 + or_default (energy u) 0
    \<and> or_default (emissions (accumulate u m)) 0
        = or_default (emissions m) 0 + or_default (emissions u) 0
    \<and> or_default (networkCalls (accumulate u m)) 0
        = or_default (networkCalls m) 0 + or_default (networkCalls u) 0
    \<and> or_default (ioOperations (accumulate u m)) 0
        = or_default (ioOperations m) 0 + or_default (ioOperations u) 0
    \<and> or_default (memory (accumulate u m)) 0
        = max (or_default (memory m) 0) (or_default (memory u) 0)
    \<and> wf_state (trackResource cid rtype u s)"
proof -
  let ?s' = "trackResource cid rtype u s"
  have look: "map_of (metrics ?s') cid = Some (accumulate u m)"
    using assms(3) by (simp add: trackResource_metrics_lookup)
  have act: "map_of (activeContexts ?s') cid = Some ctx"
    using assms(2) by (simp add: trackResource_frame)
  have ret: "fst (endContext cid ?s') = Some (accumulate u m)"
    by (rule endContext_known_fields(1)[OF act look])
  have mem: "memory_ok m"
    using assms(1,3) by (rule wf_lookup_memory_ok)
  from look ret mem assms(1) show ?thesis
    by (simp add: getCurrentMetrics_def accumulate_energy accumulate_emissions
        accumulate_networkCalls accumulate_ioOperations accumulate_memory wf_trackResource)
qed

theorem trackResource_accumulates_witness:
  "wf_state (tracked_c1 None 0.2)
   \<and> map_of (activeContexts (tracked_c1 None 0.2)) ''c1'' = Some 0
   \<and> map_of (metrics (tracked_c1 None 0.2)) ''c1'' = Some (initial_metrics\<lparr>energy := Some 0.2\<rparr>)
   \<and> fst (endContext ''c1''
        (trackResource ''c1'' ''execution'' (usage_energy 0.3) (tracked_c1 None 0.2)))
      = Some (initial_metrics\<lparr>energy := Some 0.5\<rparr>)"
proof -
  have wf: "wf_state (tracked_c1 None 0.2)"
    by (simp add: wf_state_def tracked_c1_fields memory_ok_def initial_metrics_def or_default_def)
  have a: "map_of (activeContexts (tracked_c1 None 0.2)) ''c1'' = Some 0"
    by (simp add: tracked_c1_fields)
  have m: "map_of (metrics (tracked_c1 None 0.2)) ''c1'' = Some (initial_metrics\<lparr>energy := Some 0.2\<rparr>)"
    by (simp add: tracked_c1_fields)
  have acc: "accumulate (usage_energy 0.3) (initial_metrics\<lparr>energy := Some 0.2\<rparr>)
      = initial_metrics\<lparr>energy := Some 0.5\<rparr>"
    by (simp add: accumulate_usage_energy[where e="0.2"])
  from trackResource_accumulates[OF wf a m, of "''execution''" "usage_energy 0.3"]
  have "fst (endContext ''c1''
        (trackResource ''c1'' ''execution'' (usage_energy 0.3) (tracked_c1 None 0.2)))
      = Some (accumulate (usage_energy 0.3) (initial_metrics\<lparr>energy := Some 0.2\<rparr>))"
    by (elim conjE)
  with wf a m acc show ?thesis by simp
qed

text \<open>
  The same over a whole run: after a start and any list of usages on the id, the end returns
  the initial accumulator with all of them accumulated, whose energy is their sum.
\<close>

lemma fold_trackResource_same_id:
  "map_of (metrics (fold (trackResource cid rtype) us s)) cid
     = map_option (fold accumulate us) (map_of (metrics s) cid)"
proof (induction us arbitrary: s)
  case Nil
  then show ?case by (simp add: option.map_ident)
next
  case (Cons u us)
  show ?case
    by (simp add: Cons.IH trackResource_metrics_lookup option.map_comp comp_def)
qed

lemma fold_trackResource_same_id_frame:
  "activeContexts (fold (trackResource cid rtype) us s) = activeContexts s"
  by (induction us arbitrary: s) (simp_all add: trackResource_frame)

lemma fold_accumulate_energy:
  "or_default (energy (fold accumulate us m)) 0
     = or_default (energy m) 0 + sum_list (map (\<lambda>u. or_default (energy u) 0) us)"
  by (induction us arbitrary: m) (simp_all add: accumulate_energy)

lemma endContext_after_usages:
  "fst (endContext cid (fold (trackResource cid rtype) us (startContext cid ctx s)))
     = Some (fold accumulate us initial_metrics)"
proof -
  let ?s = "fold (trackResource cid rtype) us (startContext cid ctx s)"
  have a: "map_of (activeContexts ?s) cid = Some ctx"
    by (simp add: fold_trackResource_same_id_frame startContext_fields update_conv')
  have m: "map_of (metrics ?s) cid = Some (fold accumulate us initial_metrics)"
    by (simp add: fold_trackResource_same_id startContext_fields update_conv')
  show ?thesis by (rule endContext_known_fields(1)[OF a m])
qed

subsection \<open>Tracking on every active context\<close>

text \<open>The walk over the copied map, one context after the other.\<close>

lemma fold_trackResource_lookup:
  "distinct (map fst ps) \<Longrightarrow>
   map_of (metrics (fold (\<lambda>(c, ctx) s. trackResource c rtype u s) ps s)) cid =
     (if cid \<in> fst ` set ps then map_option (accumulate u) (map_of (metrics s) cid)
      else map_of (metrics s) cid)"
proof (induction ps arbitrary: s)
  case Nil
  then show ?case by simp
next
  case (Cons p ps)
  obtain c ctx where p: "p = (c, ctx)" by (cases p)
  from Cons.prems have d: "distinct (map fst ps)" and notin: "c \<notin> fst ` set ps"
    by (simp_all add: p)
  show ?case
    using notin by (auto simp: p Cons.IH[OF d] trackResource_metrics_lookup)
qed

lemma fold_trackResource_frame:
  "activeContexts (fold (\<lambda>(c, ctx) s. trackResource c rtype u s) ps s) = activeContexts s"
  "heap (fold (\<lambda>(c, ctx) s. trackResource c rtype u s) ps s) = heap s"
  by (induction ps arbitrary: s) (auto simp: trackResource_frame)


lemma trackResource_all_skips_inactive:
  "map_of (activeContexts s) cid = None \<Longrightarrow> wf_state s \<Longrightarrow>
   getCurrentMetrics cid (trackResource_all rtype u s) = getCurrentMetrics cid s"
  unfolding trackResource_all_def getActiveContexts_def Let_def getCurrentMetrics_def
  by (simp add: fold_trackResource_lookup wf_state_def map_of_eq_None_iff)



subsection \<open>The context object of the caller\<close>

text \<open>
  C10: \<^const>\<open>startContext\<close> overwrites the \<^verbatim>\<open>startTime\<close> of the caller's context object
  with the current time, where the object lives, and registers the reference to that very
  object: what the tracker reads for the id is what the store holds at that reference, so a
  later write of the caller through its reference is what the tracker sees, also after
  resources were tracked.
\<close>

theorem startContext_keeps_reference:
  "heap (startContext cid ctx s)
     = (heap s)(ctx := (heap s ctx)\<lparr>startTime := Some (clock s (ticks s))\<rparr>)
   \<and> map_of (activeContexts (startContext cid ctx s)) cid = Some ctx
   \<and> lookup_context cid (startContext cid ctx s)
       = Some ((heap s ctx)\<lparr>startTime := Some (clock s (ticks s))\<rparr>)
   \<and> lookup_context cid (caller_write ctx c (startContext cid ctx s)) = Some c
   \<and> lookup_context cid
        (caller_write ctx c (trackResource cid2 rtype u (startContext cid ctx s))) = Some c"
  by (simp add: startContext_fields lookup_context_def caller_write_def update_conv'
      trackResource_frame)

text \<open>
  The reference registered for an id stays until that id is ended or started again, and
  \<^const>\<open>endContext\<close> reads the budget from the caller's object as it is then: a budget the
  caller sets after the start is the one that is checked.
\<close>

lemma registered_reference_stable:
  "c2 \<noteq> cid \<Longrightarrow>
     map_of (activeContexts (startContext c2 ctx2 s)) cid = map_of (activeContexts s) cid"
  "c2 \<noteq> cid \<Longrightarrow>
     map_of (activeContexts (snd (endContext c2 s))) cid = map_of (activeContexts s) cid"
  "map_of (activeContexts (trackResource c2 rtype u s)) cid = map_of (activeContexts s) cid"
  "map_of (activeContexts (trackResource_all rtype u s)) cid = map_of (activeContexts s) cid"
proof -
  show "c2 \<noteq> cid \<Longrightarrow>
     map_of (activeContexts (startContext c2 ctx2 s)) cid = map_of (activeContexts s) cid"
    by (simp add: startContext_fields update_conv')
  show "c2 \<noteq> cid \<Longrightarrow>
     map_of (activeContexts (snd (endContext c2 s))) cid = map_of (activeContexts s) cid"
  proof (cases "map_of (activeContexts s) c2 = None \<or> map_of (metrics s) c2 = None")
    case True
    then show ?thesis by (simp add: endContext_unknown)
  next
    case False
    assume ne: "c2 \<noteq> cid"
    from False obtain x m where
      "map_of (activeContexts s) c2 = Some x" "map_of (metrics s) c2 = Some m" by auto
    with ne show ?thesis by (simp add: endContext_known_fields)
  qed
  show "map_of (activeContexts (trackResource c2 rtype u s)) cid = map_of (activeContexts s) cid"
    by (simp add: trackResource_frame)
  show "map_of (activeContexts (trackResource_all rtype u s)) cid = map_of (activeContexts s) cid"
    by (simp add: trackResource_all_def getActiveContexts_def fold_trackResource_frame)
qed

lemma endContext_reads_callers_object:
  "map etype (emitted (snd (endContext ''c1'' (tracked_c1 None (3 / 2)))))
     = [ev_context_started, ev_resource_tracked, ev_context_ended]"
  "map etype (emitted (snd (endContext ''c1''
       (caller_write 0 (context_with_budget (Some 1)) (tracked_c1 None (3 / 2))))))
     = [ev_context_started, ev_resource_tracked, ev_carbon_budget_exceeded, ev_context_ended]"
proof -
  let ?m = "initial_metrics\<lparr>energy := Some (3 / 2)\<rparr>"
  let ?s = "tracked_c1 None (3 / 2)"
  let ?t = "caller_write 0 (context_with_budget (Some 1)) ?s"
  have a: "map_of (activeContexts ?s) ''c1'' = Some 0"
    and m: "map_of (metrics ?s) ''c1'' = Some ?m"
    by (simp_all add: tracked_c1_fields)
  have a': "map_of (activeContexts ?t) ''c1'' = Some 0"
    and m': "map_of (metrics ?t) ''c1'' = Some ?m"
    by (simp_all add: caller_write_def tracked_c1_fields)
  have n: "\<not> budget_exceeded (heap ?s 0) ?m"
    by (simp add: budget_exceeded_def tracked_c1_fields context_with_budget_def)
  have y: "budget_exceeded (heap ?t 0) ?m"
    by (simp add: budget_exceeded_def caller_write_def context_with_budget_def
        initial_metrics_def)
  have e: "map etype (emitted ?t) = [ev_context_started, ev_resource_tracked]"
    by (simp add: caller_write_def tracked_c1_fields)
  show "map etype (emitted (snd (endContext ''c1'' ?s)))
     = [ev_context_started, ev_resource_tracked, ev_context_ended]"
    unfolding endContext_known_fields(5)[OF a m] using n
    by (simp add: tracked_c1_fields ended_event_def)
  show "map etype (emitted (snd (endContext ''c1'' ?t)))
     = [ev_context_started, ev_resource_tracked, ev_carbon_budget_exceeded, ev_context_ended]"
    unfolding endContext_known_fields(5)[OF a' m'] using y e
    by (simp add: exceeded_event_def ended_event_def)
qed

subsection \<open>Ending a context\<close>

text \<open>The budget check of \<^const>\<open>endContext\<close>, spelled out.\<close>

lemma budget_exceeded_iff:
  "budget_exceeded c m \<longleftrightarrow>
     (\<exists>b e. ctx_carbonBudget c = Some b \<and> energy m = Some e \<and> b \<noteq> 0 \<and> e \<noteq> 0 \<and> b < e)"
  by (auto simp: budget_exceeded_def split: option.splits)

text \<open>
  C7, as stated, fails for a context that declares a carbonBudget of 0: the accumulated
  energy 0.5 exceeds it, and \<^const>\<open>endContext\<close> emits no carbon_budget_exceeded event.
\<close>

theorem endContext_zero_budget_counterexample:
  "ctx_carbonBudget (heap (tracked_c1 (Some 0) 0.5) 0) = Some 0
   \<and> map_of (activeContexts (tracked_c1 (Some 0) 0.5)) ''c1'' = Some 0
   \<and> getCurrentMetrics ''c1'' (tracked_c1 (Some 0) 0.5)
        = Some (initial_metrics\<lparr>energy := Some 0.5\<rparr>)
   \<and> map etype (emitted (snd (endContext ''c1'' (tracked_c1 (Some 0) 0.5))))
        = [ev_context_started, ev_resource_tracked, ev_context_ended]"
proof -
  have a: "map_of (activeContexts (tracked_c1 (Some 0) 0.5)) ''c1'' = Some 0"
    and m: "map_of (metrics (tracked_c1 (Some 0) 0.5)) ''c1''
             = Some (initial_metrics\<lparr>energy := Some 0.5\<rparr>)"
    by (simp_all add: tracked_c1_fields)
  have b: "ctx_carbonBudget (heap (tracked_c1 (Some 0) 0.5) 0) = Some 0"
    by (simp add: tracked_c1_fields context_with_budget_def)
  then have n: "\<not> budget_exceeded (heap (tracked_c1 (Some 0) 0.5) 0)
                  (initial_metrics\<lparr>energy := Some 0.5\<rparr>)"
    by (simp add: budget_exceeded_def)
  have "emitted (snd (endContext ''c1'' (tracked_c1 (Some 0) 0.5)))
      = emitted (tracked_c1 (Some 0) 0.5) @
        [ended_event ''c1'' 0 (initial_metrics\<lparr>energy := Some 0.5\<rparr>)
           (clock (tracked_c1 (Some 0) 0.5) (ticks (tracked_c1 (Some 0) 0.5))
             - or_default (startTime (heap (tracked_c1 (Some 0) 0.5) 0)) 0)
           (clock (tracked_c1 (Some 0) 0.5) (ticks (tracked_c1 (Some 0) 0.5) + 1))]"
    unfolding endContext_known_fields(5)[OF a m] using n by (simp only: if_False)
  then have "map etype (emitted (snd (endContext ''c1'' (tracked_c1 (Some 0) 0.5))))
      = [ev_context_started, ev_resource_tracked, ev_context_ended]"
    by (simp add: tracked_c1_fields ended_event_def)
  with a m b show ?thesis
    by (simp add: getCurrentMetrics_def)
qed

text \<open>
  C7, as amended: for an id with a context and an accumulator, \<^const>\<open>endContext\<close> takes
  the duration as the current time minus the start time; if the carbonBudget of the context
  is present and not 0 and the accumulated energy is not 0 and above it, it emits
  carbon_budget_exceeded and after that context_ended, and otherwise context_ended alone,
  each with the final metrics; it removes the id from both maps, so that a lookup of its
  metrics finds nothing, and returns the final metrics.
\<close>

theorem endContext_events_in_order:
  assumes "map_of (activeContexts s) cid = Some ctx"
    and "map_of (metrics s) cid = Some m"
  shows "fst (endContext cid s) = Some m
    \<and> emitted (snd (endContext cid s)) = emitted s @
       (if budget_exceeded (heap s ctx) m
        then [exceeded_event cid ctx m (clock s (ticks s + 1)),
              ended_event cid ctx m (clock s (ticks s) - or_default (startTime (heap s ctx)) 0)
                (clock s (ticks s + 2))]
        else [ended_event cid ctx m (clock s (ticks s) - or_default (startTime (heap s ctx)) 0)
                (clock s (ticks s + 1))])
    \<and> (budget_exceeded (heap s ctx) m \<longleftrightarrow>
         (\<exists>b e. ctx_carbonBudget (heap s ctx) = Some b \<and> energy m = Some e \<and>
                b \<noteq> 0 \<and> e \<noteq> 0 \<and> b < e))
    \<and> getCurrentMetrics cid (snd (endContext cid s)) = None
    \<and> map_of (activeContexts (snd (endContext cid s))) cid = None
    \<and> heap (snd (endContext cid s)) = heap s"
proof -
  note f = endContext_known_fields[OF assms]
  have gone: "map_of (AList.delete cid al) cid = None" for al :: "(string \<times> 'v) list"
    by (simp add: delete_conv')
  show ?thesis
    unfolding getCurrentMetrics_def f(1) f(2) f(3) f(4) f(5) gone budget_exceeded_iff
    by simp
qed

theorem endContext_events_in_order_witness:
  "map_of (activeContexts (tracked_c1 (Some 1) 1.5)) ''c1'' = Some 0
   \<and> map_of (metrics (tracked_c1 (Some 1) 1.5)) ''c1''
        = Some (initial_metrics\<lparr>energy := Some 1.5\<rparr>)
   \<and> fst (endContext ''c1'' (tracked_c1 (Some 1) 1.5))
        = Some (initial_metrics\<lparr>energy := Some 1.5\<rparr>)
   \<and> map etype (emitted (snd (endContext ''c1'' (tracked_c1 (Some 1) 1.5))))
        = [ev_context_started, ev_resource_tracked, ev_carbon_budget_exceeded, ev_context_ended]
   \<and> map duration (emitted (snd (endContext ''c1'' (tracked_c1 (Some 1) 1.5))))
        = [None, None, None, Some 3]
   \<and> getCurrentMetrics ''c1'' (snd (endContext ''c1'' (tracked_c1 (Some 1) 1.5))) = None"
proof -
  let ?s = "tracked_c1 (Some 1) 1.5"
  let ?m = "initial_metrics\<lparr>energy := Some 1.5\<rparr>"
  have a: "map_of (activeContexts ?s) ''c1'' = Some 0"
    and m: "map_of (metrics ?s) ''c1'' = Some ?m"
    by (simp_all add: tracked_c1_fields)
  have x: "budget_exceeded (heap ?s 0) ?m"
    by (simp add: budget_exceeded_def tracked_c1_fields context_with_budget_def)
  have st: "startTime (heap ?s 0) = Some 1000"
    by (simp add: tracked_c1_fields)
  note r = endContext_events_in_order[OF a m]
  from r have r1: "fst (endContext ''c1'' ?s) = Some ?m" by (elim conjE)
  from r have r2: "emitted (snd (endContext ''c1'' ?s)) = emitted ?s @
       (if budget_exceeded (heap ?s 0) ?m
        then [exceeded_event ''c1'' 0 ?m (clock ?s (ticks ?s + 1)),
              ended_event ''c1'' 0 ?m (clock ?s (ticks ?s) - or_default (startTime (heap ?s 0)) 0)
                (clock ?s (ticks ?s + 2))]
        else [ended_event ''c1'' 0 ?m (clock ?s (ticks ?s) - or_default (startTime (heap ?s 0)) 0)
                (clock ?s (ticks ?s + 1))])" by (elim conjE)
  from r have r3: "getCurrentMetrics ''c1'' (snd (endContext ''c1'' ?s)) = None" by (elim conjE)
  have du: "map duration (emitted (tracked_c1 b y)) = [None, None]" for b y
    unfolding tracked_c1_def
    by (simp add: trackResource_known_fields(4)[where m=initial_metrics] started_c1_fields)
  have r2': "emitted (snd (endContext ''c1'' ?s)) = emitted ?s @
        [exceeded_event ''c1'' 0 ?m (clock ?s (ticks ?s + 1)),
         ended_event ''c1'' 0 ?m (clock ?s (ticks ?s) - or_default (startTime (heap ?s 0)) 0)
                (clock ?s (ticks ?s + 2))]"
    unfolding r2 using x by (simp only: if_True)
  have d: "clock ?s (ticks ?s) - or_default (startTime (heap ?s 0)) 0 = 3"
    by (simp add: st or_default_def tracked_c1_fields clock0_def)
  have e1: "map etype (emitted (snd (endContext ''c1'' ?s)))
        = [ev_context_started, ev_resource_tracked, ev_carbon_budget_exceeded, ev_context_ended]"
    unfolding r2' by (simp add: tracked_c1_fields exceeded_event_def ended_event_def)
  have e2: "map duration (emitted (snd (endContext ''c1'' ?s))) = [None, None, None, Some 3]"
    unfolding r2' d by (simp add: du exceeded_event_def ended_event_def)
  from a m r1 r3 e1 e2 show ?thesis by simp
qed

section \<open>Emissions and energy\<close>

text \<open>
  C1, as stated, fails for the tracker: after a start of "c1" and a usage that reports an
  energy of 0.2 and nothing else, the accumulator holds energy 0.2 and emissions 0.
\<close>

theorem tracker_emissions_counterexample:
  "getCurrentMetrics ''c1'' (tracked_c1 None 0.2) = Some (initial_metrics\<lparr>energy := Some 0.2\<rparr>)
   \<and> energy (initial_metrics\<lparr>energy := Some 0.2\<rparr>) = Some 0.2
   \<and> emissions (initial_metrics\<lparr>energy := Some 0.2\<rparr>) = Some 0
   \<and> \<not> emissions_consistent (initial_metrics\<lparr>energy := Some 0.2\<rparr>)"
  by (simp add: getCurrentMetrics_def tracked_c1_fields initial_metrics_def
      emissions_consistent_def or_default_def)

text \<open>
  C1, as amended: the metrics the estimator produces have emissions equal to 500 times the
  energy, and so has the accumulator of a context that was just started, where both are 0.
  \<^const>\<open>trackResource\<close> does not keep the equation: it adds the energy of the usage to the
  energy and the emissions of the usage to the emissions, each on its own; on a fresh
  accumulator a usage of a non-zero energy and no emissions gives that energy and
  emissions 0.
\<close>

theorem emissions_follow_energy:
  "(\<exists>e. energy (analyzeFunction node) = Some e \<and> emissions (analyzeFunction node) = Some (e * 500))
   \<and> (\<exists>e. energy (estimateEnergyUsage m0) = Some e
           \<and> emissions (estimateEnergyUsage m0) = Some (e * 500))
   \<and> getCurrentMetrics cid (startContext cid ctx s) = Some initial_metrics
   \<and> energy initial_metrics = Some 0 \<and> emissions initial_metrics = Some 0
   \<and> (map_of (metrics s) cid = Some m \<longrightarrow>
        getCurrentMetrics cid (trackResource cid rtype u s) = Some (accumulate u m) \<and>
        or_default (energy (accumulate u m)) 0
          = or_default (energy m) 0 + or_default (energy u) 0 \<and>
        or_default (emissions (accumulate u m)) 0
          = or_default (emissions m) 0 + or_default (emissions u) 0)
   \<and> (energy u = Some x \<and> x \<noteq> 0 \<and> or_default (emissions u) 0 = 0 \<longrightarrow>
        energy (accumulate u initial_metrics) = Some x \<and>
        emissions (accumulate u initial_metrics) = Some 0)"
proof -
  have 1: "\<exists>e. energy (analyzeFunction node) = Some e
            \<and> emissions (analyzeFunction node) = Some (e * 500)"
    unfolding analyzeFunction_eq Let_def by simp
  have 2: "\<exists>e. energy (estimateEnergyUsage m0) = Some e
            \<and> emissions (estimateEnergyUsage m0) = Some (e * 500)"
    by (simp add: estimateEnergyUsage_def Let_def or_default_def)
  have 3: "getCurrentMetrics cid (startContext cid ctx s) = Some initial_metrics"
    by (simp add: getCurrentMetrics_def startContext_fields update_conv')
  have 4: "energy initial_metrics = Some 0" "emissions initial_metrics = Some 0"
    by (simp_all add: initial_metrics_def)
  have 5: "map_of (metrics s) cid = Some m \<longrightarrow>
        getCurrentMetrics cid (trackResource cid rtype u s) = Some (accumulate u m) \<and>
        or_default (energy (accumulate u m)) 0
          = or_default (energy m) 0 + or_default (energy u) 0 \<and>
        or_default (emissions (accumulate u m)) 0
          = or_default (emissions m) 0 + or_default (emissions u) 0"
    by (simp add: getCurrentMetrics_def trackResource_metrics_lookup accumulate_energy
        accumulate_emissions)
  have 6: "energy u = Some x \<and> x \<noteq> 0 \<and> or_default (emissions u) 0 = 0 \<longrightarrow>
        energy (accumulate u initial_metrics) = Some x \<and>
        emissions (accumulate u initial_metrics) = Some 0"
    by (auto simp: accumulate_def when_truthy_def or_default_def initial_metrics_def Let_def
        split: option.splits if_splits)
  from 1 2 3 4 5 6 show ?thesis by blast
qed

theorem emissions_follow_energy_witness:
  "map_of (metrics (started_c1 None)) ''c1'' = Some initial_metrics
   \<and> energy (usage_energy_emissions 0.8 400) = Some 0.8
   \<and> emissions (usage_energy_emissions 0.8 400) = Some 400
   \<and> getCurrentMetrics ''c1''
        (trackResource ''c1'' ''computation'' (usage_energy_emissions 0.8 400) (started_c1 None))
      = Some (accumulate (usage_energy_emissions 0.8 400) initial_metrics)
   \<and> or_default (energy (accumulate (usage_energy_emissions 0.8 400) initial_metrics)) 0 = 0.8
   \<and> or_default (emissions (accumulate (usage_energy_emissions 0.8 400) initial_metrics)) 0 = 400
   \<and> energy (usage_energy 0.0001) = Some 0.0001
   \<and> or_default (emissions (usage_energy 0.0001)) 0 = 0
   \<and> energy (accumulate (usage_energy 0.0001) initial_metrics) = Some 0.0001
   \<and> emissions (accumulate (usage_energy 0.0001) initial_metrics) = Some 0
   \<and> energy (analyzeFunction empty_body) = Some 0.01
   \<and> emissions (analyzeFunction empty_body) = Some 5"
proof -
  have m: "map_of (metrics (started_c1 None)) ''c1'' = Some initial_metrics"
    by (simp add: started_c1_fields)
  have i: "or_default (energy initial_metrics) 0 = 0" "or_default (emissions initial_metrics) 0 = 0"
    by (simp_all add: initial_metrics_def or_default_def)
  have u: "energy (usage_energy_emissions 0.8 400) = Some 0.8"
    "emissions (usage_energy_emissions 0.8 400) = Some 400"
    "or_default (energy (usage_energy_emissions 0.8 400)) 0 = 0.8"
    "or_default (emissions (usage_energy_emissions 0.8 400)) 0 = 400"
    by (simp_all add: usage_energy_emissions_def no_usage_def or_default_def)
  note r = emissions_follow_energy[of empty_body initial_metrics "''c1''" 0 "started_c1 None"
      initial_metrics "''computation''" "usage_energy_emissions 0.8 400"]
  from r m have t: "getCurrentMetrics ''c1''
        (trackResource ''c1'' ''computation'' (usage_energy_emissions 0.8 400) (started_c1 None))
      = Some (accumulate (usage_energy_emissions 0.8 400) initial_metrics)"
    and e: "or_default (energy (accumulate (usage_energy_emissions 0.8 400) initial_metrics)) 0
      = or_default (energy initial_metrics) 0 + or_default (energy (usage_energy_emissions 0.8 400)) 0"
    and c: "or_default (emissions (accumulate (usage_energy_emissions 0.8 400) initial_metrics)) 0
      = or_default (emissions initial_metrics) 0
        + or_default (emissions (usage_energy_emissions 0.8 400)) 0"
    by blast+
  have v: "energy (usage_energy 0.0001) = Some 0.0001"
    "or_default (emissions (usage_energy 0.0001)) 0 = 0" "(0.0001::real) \<noteq> 0"
    by (simp_all add: usage_energy_def no_usage_def or_default_def)
  note q = emissions_follow_energy[of empty_body initial_metrics "''c1''" 0 "started_c1 None"
      initial_metrics "''cache_hit''" "usage_energy 0.0001" "0.0001"]
  from q v have f: "energy (accumulate (usage_energy 0.0001) initial_metrics) = Some 0.0001"
    "emissions (accumulate (usage_energy 0.0001) initial_metrics) = Some 0"
    by blast+
  from r obtain e0 where e0: "energy (analyzeFunction empty_body) = Some e0"
      "emissions (analyzeFunction empty_body) = Some (e0 * 500)" by blast
  have a: "energy (analyzeFunction empty_body) = Some 0.01"
    unfolding analyzeFunction_eq Let_def
    by (simp add: descendants_empty_body isAICall_def isNetworkCall_def isIOCall_def)
  with e0 have b: "emissions (analyzeFunction empty_body) = Some 5" by simp
  from e i u have e': "or_default (energy (accumulate (usage_energy_emissions 0.8 400) initial_metrics)) 0 = 0.8"
    by simp
  from c i u have c': "or_default (emissions (accumulate (usage_energy_emissions 0.8 400) initial_metrics)) 0 = 400"
    by simp
  from m u(1,2) t e' c' v(1,2) f a b show ?thesis by (intro conjI)
qed

end
